theory Spec2Isabelle
  imports Complex_Main
begin

section \<open>Interior ballistics of straight-walled cartridges\<close>

text \<open>
  A shallow embedding of \<^verbatim>\<open>units.py\<close>, \<^verbatim>\<open>curves.py\<close> and \<^verbatim>\<open>cartridges.py\<close>.

  Numbers. The Python code computes in IEEE double precision (Python floats and numpy
  float64). Here every number is a \<^typ>\<open>real\<close> and every operation is exact: rounding,
  overflow and the special values inf and nan are outside the model. Three operations of
  the code have a result in HOL where numpy yields inf or nan (with a warning, not an
  exception): the numpy divisions by \<^verbatim>\<open>m_bullet\<close> and by
  \<^verbatim>\<open>v_case + x*a_case\<close> when the divisor is zero, and \<^verbatim>\<open>pow\<close> on a base that
  is not positive. On bundles with a positive bullet mass, positive case dimensions and a
  bullet that does not move backwards those cases do not arise.

  Errors. Two operations of the code raise. The division of Python floats in the
  property \<^verbatim>\<open>p_yield\<close> (and \<^verbatim>\<open>p_uts\<close>) raises \<^verbatim>\<open>ZeroDivisionError\<close> on a zero
  \<^verbatim>\<open>d_case\<close>: that is a value of the type \<open>error\<close> below. Python's \<^verbatim>\<open>pow\<close> in
  \<^verbatim>\<open>a_chamber\<close>, \<^verbatim>\<open>a_case\<close> and \<^verbatim>\<open>a_bullet\<close> raises \<^verbatim>\<open>OverflowError\<close> when the
  square of the diameter leaves the range of a double (a diameter beyond about
  \<open>1.3 * 10\<^sup>1\<^sup>5\<^sup>4\<close>), and so does the conversion of a Python integer beyond that range
  to a float: that is overflow and, like all overflow, outside the model. A statement
  below that a run returns is therefore a statement about bundles whose numbers stay in
  the range of a double.
\<close>

subsection \<open>units.py\<close>

definition mm :: real where
  "mm = 0.001"

definition inch :: real where
  "inch = 0.0254"

definition ksi :: real where
  "ksi = 6894759.08677537"

definition grains :: real where
  "grains = 6479891 / 10 ^ 11"

subsection \<open>curves.py\<close>

text \<open>\<^verbatim>\<open>return 1 / ( 1 + py_exp(-alpha*(x-x_0)))\<close>\<close>

definition sigmoid :: "real \<Rightarrow> real \<Rightarrow> real \<Rightarrow> real" where
  "sigmoid x alpha x_0 = 1 / (1 + exp (- alpha * (x - x_0)))"

subsection \<open>cartridges.py: the parameter bundle\<close>

datatype error = ZeroDivisionError

record cartridge =
  m_bullet :: real
  d_chamber :: real
  d_case :: real
  l_case :: real
  l_case_i :: real
  l_round :: real
  yield_case :: real
  uts_case :: real
  gamma_case :: real
  u_cw :: real
  p_peak :: real
  t_peak :: real
  alpha_s :: real
  gama :: real

text \<open>\<^verbatim>\<open>Cartridge.__init__\<close>: the sentinels \<open>-1\<close>, brass, and the default combustion.\<close>

definition Cartridge :: cartridge where
  "Cartridge =
     \<lparr> m_bullet = - 1, d_chamber = - 1, d_case = - 1, l_case = - 1, l_case_i = - 1,
       l_round = - 1,
       yield_case = 200 * 10 ^ 6, uts_case = 550 * 10 ^ 6, gamma_case = 97 * 10 ^ 9,
       u_cw = 0.1,
       p_peak = 55 * ksi, t_peak = 5 / 10 ^ 4, alpha_s = 6.0 / (5 / 10 ^ 4), gama = 1.3 \<rparr>"

text \<open>The subclasses call the parent's \<^verbatim>\<open>__init__\<close> and then overwrite fields.\<close>

definition CCCIMiniMag :: cartridge where
  "CCCIMiniMag =
     Cartridge
       \<lparr> m_bullet := 40 * grains, d_chamber := 0.223 * inch, d_case := 0.203 * inch,
         l_case := 0.55 * inch, l_case_i := 0.50 * inch, l_round := 1.25 * inch,
         p_peak := 55 * ksi, t_peak := 5 / 10 ^ 4, alpha_s := 6.0 / (5 / 10 ^ 4),
         gama := 1.3 \<rparr>"

definition C22_Al :: cartridge where
  "C22_Al =
     CCCIMiniMag
       \<lparr> p_peak := 40 * ksi, t_peak := 5 / 10 ^ 4, alpha_s := 6.0 / (5 / 10 ^ 4) \<rparr>"

definition C9mm :: cartridge where
  "C9mm =
     Cartridge
       \<lparr> m_bullet := 115 * grains, d_chamber := 9.8 * mm, d_case := 9.03 * mm,
         l_case := 19.15 * mm, l_case_i := 15.00 * mm, l_round := 29.69 * mm,
         p_peak := 55 * ksi, t_peak := 1.5 / 10 ^ 4, alpha_s := 6.0 / (1.5 / 10 ^ 4),
         gama := 1.15 \<rparr>"

text \<open>The derived properties. \<^verbatim>\<open>pow(d, 2.0)\<close> and \<^verbatim>\<open>pow(d, 2)\<close> are the square.\<close>

definition a_chamber :: "cartridge \<Rightarrow> real" where
  "a_chamber c = pi * (d_chamber c) ^ 2 / 4.0"

definition a_case :: "cartridge \<Rightarrow> real" where
  "a_case c = pi * (d_case c) ^ 2 / 4.0"

definition a_bullet :: "cartridge \<Rightarrow> real" where
  "a_bullet c = pi * (d_chamber c) ^ 2"

definition a_cw :: "cartridge \<Rightarrow> real" where
  "a_cw c = pi * d_case c * l_case_i c"

definition v_case :: "cartridge \<Rightarrow> real" where
  "v_case c = a_case c * l_case_i c"

definition t_case :: "cartridge \<Rightarrow> real" where
  "t_case c = (d_chamber c - d_case c) / 2.0"

text \<open>Python's \<open>/\<close> on floats raises when the divisor is zero.\<close>

definition p_yield :: "cartridge \<Rightarrow> error + real" where
  "p_yield c =
     (if d_case c = 0 then Inl ZeroDivisionError
      else Inr (2.0 * yield_case c * t_case c / d_case c))"

definition p_uts :: "cartridge \<Rightarrow> error + real" where
  "p_uts c =
     (if d_case c = 0 then Inl ZeroDivisionError
      else Inr (2.0 * uts_case c * t_case c / d_case c))"

subsection \<open>cartridges.py: the integrator\<close>

text \<open>
  The array \<^verbatim>\<open>X = np.zeros([4,N])\<close> is a list of four rows; \<^verbatim>\<open>X[r,i]\<close> is
  \<open>X ! r ! i\<close> and the assignment \<^verbatim>\<open>X[r,i] = v\<close> is \<open>set2 X r i v\<close>. The loop only
  reads and writes inside the array (\<open>i + 1 < N\<close>), where numpy would raise otherwise.
\<close>

type_synonym array2 = "real list list"

definition set2 :: "array2 \<Rightarrow> nat \<Rightarrow> nat \<Rightarrow> real \<Rightarrow> array2" where
  "set2 X r i v = X[r := (X ! r)[i := v]]"

definition Ts :: real where
  "Ts = 1 / 10 ^ 6"

definition Tf :: real where
  "Tf = 3.0 / 10 ^ 3"

text \<open>\<^verbatim>\<open>N = int(Tf / Ts)\<close>\<close>

definition N :: nat where
  "N = nat \<lfloor>Tf / Ts\<rfloor>"

text \<open>\<^verbatim>\<open>t = np.array(range(0,N))*Ts\<close>\<close>

definition t_vec :: "real list" where
  "t_vec = map (\<lambda>k. real k * Ts) [0..<N]"

text \<open>
  \<^verbatim>\<open>if not l_barrel: l_barrel = 18 * u.inch\<close>: \<^verbatim>\<open>None\<close> and the number zero are
  falsy.
\<close>

definition barrel :: "real option \<Rightarrow> real" where
  "barrel l_barrel =
     (case l_barrel of
        None \<Rightarrow> 18 * inch
      | Some l \<Rightarrow> if l = 0 then 18 * inch else l)"

text \<open>The assignments of the loop body, each under the name of its variable.\<close>

definition x_dd :: "cartridge \<Rightarrow> real \<Rightarrow> real" where
  "x_dd c p = p * a_case c / m_bullet c * 0.9"

definition p_combust :: "cartridge \<Rightarrow> real \<Rightarrow> real \<Rightarrow> real \<Rightarrow> real" where
  "p_combust c l_barrel t_i x =
     (let pc = p_peak c * sigmoid t_i (alpha_s c) (t_peak c)
      in if x > l_barrel then 0 else pc)"

definition p_k :: "cartridge \<Rightarrow> real \<Rightarrow> real \<Rightarrow> real" where
  "p_k c pc x = pc * (v_case c / (v_case c + x * a_case c)) powr gama c"

text \<open>
  \<^verbatim>\<open>if not friction or p_k < self.p_yield\<close>: the \<^verbatim>\<open>or\<close> evaluates
  \<^verbatim>\<open>self.p_yield\<close> only when \<^verbatim>\<open>friction\<close> is true.
\<close>

definition F_friction :: "cartridge \<Rightarrow> bool \<Rightarrow> real \<Rightarrow> error + real" where
  "F_friction c friction pk =
     (if \<not> friction then Inr 0
      else (case p_yield c of
              Inl e \<Rightarrow> Inl e
            | Inr py \<Rightarrow>
                if pk < py then Inr 0
                else Inr ((pk - py) * a_cw c * u_cw c)))"

definition F_case :: "cartridge \<Rightarrow> real \<Rightarrow> real \<Rightarrow> real" where
  "F_case c pk Ff =
     (let F = pk * a_chamber c - Ff
      in if F < 0 then 0 else F)"

text \<open>One pass of the body of \<^verbatim>\<open>for i in range(N-1)\<close>.\<close>

definition sim_body ::
  "cartridge \<Rightarrow> bool \<Rightarrow> real \<Rightarrow> real list \<Rightarrow> nat \<Rightarrow> array2 \<Rightarrow> error + array2" where
  "sim_body c friction l_barrel t i X =
     (let x = X ! 0 ! i;
          x_d = X ! 1 ! i;
          xdd = x_dd c (X ! 2 ! i);
          pc = p_combust c l_barrel (t ! i) x;
          pk = p_k c pc x
      in case F_friction c friction pk of
           Inl e \<Rightarrow> Inl e
         | Inr Ff \<Rightarrow>
             Inr (set2 (set2 (set2 (set2 X 0 (i + 1) (x + x_d * Ts))
                                1 (i + 1) (x_d + xdd * Ts))
                          2 (i + 1) pk)
                    3 (i + 1) (F_case c pk Ff)))"

fun sim_loop ::
  "cartridge \<Rightarrow> bool \<Rightarrow> real \<Rightarrow> real list \<Rightarrow> nat list \<Rightarrow> array2 \<Rightarrow> error + array2" where
  "sim_loop c friction l_barrel t [] X = Inr X"
| "sim_loop c friction l_barrel t (i # is) X =
     (case sim_body c friction l_barrel t i X of
        Inl e \<Rightarrow> Inl e
      | Inr X' \<Rightarrow> sim_loop c friction l_barrel t is X')"

text \<open>\<^verbatim>\<open>sim(self, friction = False, l_barrel = None)\<close> returns \<^verbatim>\<open>(t, X)\<close>.\<close>

definition sim :: "cartridge \<Rightarrow> bool \<Rightarrow> real option \<Rightarrow> error + (real list \<times> array2)" where
  "sim c friction l_barrel =
     (let lb = barrel l_barrel;
          t = t_vec;
          X = replicate 4 (replicate N 0)
      in case sim_loop c friction lb t [0..<N - 1] X of
           Inl e \<Rightarrow> Inl e
         | Inr X' \<Rightarrow> Inr (t, X'))"

subsection \<open>Notions used to state properties of a run\<close>

text \<open>
  The array has four rows of \<open>N\<close> entries; \<open>col X j\<close> is the sample at index \<open>j\<close>;
  \<open>stepped\<close> says that the sample at \<open>i + 1\<close> is what the loop body computes from
  the sample at \<open>i\<close>.
\<close>

definition shape :: "array2 \<Rightarrow> bool" where
  "shape X = (length X = 4 \<and> (\<forall>r<length X. length (X ! r) = N))"

definition col :: "array2 \<Rightarrow> nat \<Rightarrow> real \<times> real \<times> real \<times> real" where
  "col X j = (X ! 0 ! j, X ! 1 ! j, X ! 2 ! j, X ! 3 ! j)"

definition stepped :: "cartridge \<Rightarrow> bool \<Rightarrow> real \<Rightarrow> real list \<Rightarrow> array2 \<Rightarrow> nat \<Rightarrow> bool" where
  "stepped c friction lb t X i =
     (X ! 0 ! (i + 1) = X ! 0 ! i + X ! 1 ! i * Ts \<and>
      X ! 1 ! (i + 1) = X ! 1 ! i + x_dd c (X ! 2 ! i) * Ts \<and>
      X ! 2 ! (i + 1) = p_k c (p_combust c lb (t ! i) (X ! 0 ! i)) (X ! 0 ! i) \<and>
      (case F_friction c friction (X ! 2 ! (i + 1)) of
         Inl e \<Rightarrow> False
       | Inr Ff \<Rightarrow> X ! 3 ! (i + 1) = F_case c (X ! 2 ! (i + 1)) Ff))"

section \<open>Properties\<close>

subsection \<open>The constants of the integrator\<close>

lemma N_eq: "N = 3000"
  by (simp add: N_def Tf_def Ts_def)

lemma length_t_vec: "length t_vec = N"
  by (simp add: t_vec_def)

lemma nth_t_vec: "i < N \<Longrightarrow> t_vec ! i = real i * Ts"
  by (simp add: t_vec_def)

lemma barrel_default: "barrel None = 0.4572"
  by (simp add: barrel_def inch_def)
subsection \<open>The array and the loop\<close>

lemma shape_set2: "shape X \<Longrightarrow> shape (set2 X r j v)"
  by (cases "r < length X") (auto simp: shape_def set2_def nth_list_update)

lemma nth_set2:
  "shape X \<Longrightarrow> r < 4 \<Longrightarrow> r' < 4 \<Longrightarrow> j < N \<Longrightarrow>
   set2 X r j v ! r' ! j' = (if r' = r \<and> j' = j then v else X ! r' ! j')"
  by (auto simp: shape_def set2_def nth_list_update)

lemma col_set2_other:
  "shape X \<Longrightarrow> j' \<noteq> j \<Longrightarrow> col (set2 X r j v) j' = col X j'"
proof (cases "r < length X")
  case True
  assume "shape X" and "j' \<noteq> j"
  then have "r = 0 \<or> r = 1 \<or> r = 2 \<or> r = 3" and "length X = 4"
    using True by (auto simp: shape_def)
  then show ?thesis using \<open>j' \<noteq> j\<close>
    by (auto simp: set2_def col_def nth_list_update)
next
  case False
  then show ?thesis by (simp add: set2_def list_update_beyond)
qed

lemma stepped_cong:
  "col X' i = col X i \<Longrightarrow> col X' (i + 1) = col X (i + 1) \<Longrightarrow>
   stepped c friction lb t X' i = stepped c friction lb t X i"
  by (simp add: col_def stepped_def split: sum.splits)

lemma sim_body_shape:
  "sim_body c friction lb t i X = Inr X' \<Longrightarrow> shape X \<Longrightarrow> shape X'"
  by (auto simp: sim_body_def Let_def shape_set2 split: sum.splits)

lemma sim_body_other:
  "sim_body c friction lb t i X = Inr X' \<Longrightarrow> shape X \<Longrightarrow> j \<noteq> i + 1 \<Longrightarrow> col X' j = col X j"
  by (auto simp: sim_body_def Let_def shape_set2 col_set2_other split: sum.splits)

lemma sim_body_stepped:
  assumes "sim_body c friction lb t i X = Inr X'" and "shape X" and "i + 1 < N"
  shows "stepped c friction lb t X' i"
proof -
  from assms(1) obtain Ff where
    Ff: "F_friction c friction (p_k c (p_combust c lb (t ! i) (X ! 0 ! i)) (X ! 0 ! i)) = Inr Ff"
    and X': "X' = set2 (set2 (set2 (set2 X 0 (i + 1) (X ! 0 ! i + X ! 1 ! i * Ts))
                                1 (i + 1) (X ! 1 ! i + x_dd c (X ! 2 ! i) * Ts))
                          2 (i + 1) (p_k c (p_combust c lb (t ! i) (X ! 0 ! i)) (X ! 0 ! i)))
                    3 (i + 1) (F_case c (p_k c (p_combust c lb (t ! i) (X ! 0 ! i)) (X ! 0 ! i)) Ff)"
    by (auto simp: sim_body_def Let_def split: sum.splits)
  show ?thesis
    using assms(2,3) Ff
    by (simp add: stepped_def X' nth_set2 shape_set2)
qed

lemma sim_loop_upt:
  "sim_loop c friction lb t [a..<b] X = Inr X' \<Longrightarrow> shape X \<Longrightarrow> b < N \<Longrightarrow>
   shape X' \<and> (\<forall>j\<le>a. col X' j = col X j) \<and>
   (\<forall>i. a \<le> i \<and> i < b \<longrightarrow> stepped c friction lb t X' i)"
proof (induction "b - a" arbitrary: a X)
  case 0
  then show ?case by auto
next
  case (Suc n)
  then have ab: "a < b" by simp
  then have upt: "[a..<b] = a # [Suc a..<b]" by (simp add: upt_conv_Cons)
  from Suc.prems(1) obtain X1 where
    X1: "sim_body c friction lb t a X = Inr X1"
    and rest: "sim_loop c friction lb t [Suc a..<b] X1 = Inr X'"
    by (auto simp: upt split: sum.splits)
  have sh1: "shape X1" using X1 Suc.prems(2) by (rule sim_body_shape)
  have n: "n = b - Suc a" using Suc.hyps(2) by simp
  from Suc.hyps(1)[OF n rest sh1 Suc.prems(3)]
  have sh': "shape X'" and same: "\<forall>j\<le>Suc a. col X' j = col X1 j"
    and st: "\<forall>i. Suc a \<le> i \<and> i < b \<longrightarrow> stepped c friction lb t X' i"
    by simp_all
  have st1: "stepped c friction lb t X1 a"
    using X1 Suc.prems(2) ab Suc.prems(3) by (intro sim_body_stepped) simp_all
  have sta: "stepped c friction lb t X' a"
    using st1 same stepped_cong[of X' a X1 c friction lb t] by simp
  have keep: "\<forall>j\<le>a. col X' j = col X j"
    using same sim_body_other[OF X1 Suc.prems(2)] by simp
  have "\<forall>i. a \<le> i \<and> i < b \<longrightarrow> stepped c friction lb t X' i"
  proof (intro allI impI)
    fix i assume "a \<le> i \<and> i < b"
    then consider "i = a" | "Suc a \<le> i \<and> i < b" by linarith
    then show "stepped c friction lb t X' i" using sta st by cases auto
  qed
  with sh' keep show ?case by simp
qed

lemma shape_zeros: "shape (replicate 4 (replicate N 0))"
  by (simp add: shape_def)

lemma col_zeros: "j < N \<Longrightarrow> col (replicate 4 (replicate N 0)) j = (0, 0, 0, 0)"
  by (simp add: col_def)

lemma sim_run:
  assumes "sim c friction l_barrel = Inr (t, X)"
  shows "t = t_vec" and "shape X" and "col X 0 = (0, 0, 0, 0)"
    and "i < N - 1 \<Longrightarrow> stepped c friction (barrel l_barrel) t_vec X i"
proof -
  from assms have t: "t = t_vec"
    and loop: "sim_loop c friction (barrel l_barrel) t_vec [0..<N - 1]
                 (replicate 4 (replicate N 0)) = Inr X"
    by (auto simp: sim_def Let_def split: sum.splits)
  have lt: "N - 1 < N" by (simp add: N_eq)
  note r = sim_loop_upt[OF loop shape_zeros lt]
  show "t = t_vec" by (rule t)
  show "shape X" using r by simp
  show "col X 0 = (0, 0, 0, 0)" using r col_zeros[of 0] by (simp add: N_eq)
  show "i < N - 1 \<Longrightarrow> stepped c friction (barrel l_barrel) t_vec X i" using r by simp
qed

lemma F_friction_ok: "\<not> friction \<or> d_case c \<noteq> 0 \<Longrightarrow> \<exists>Ff. F_friction c friction pk = Inr Ff"
  by (auto simp: F_friction_def p_yield_def)

lemma sim_body_ok:
  "\<not> friction \<or> d_case c \<noteq> 0 \<Longrightarrow> \<exists>X'. sim_body c friction lb t i X = Inr X'"
proof -
  assume "\<not> friction \<or> d_case c \<noteq> 0"
  from F_friction_ok[OF this] obtain Ff where
    "F_friction c friction (p_k c (p_combust c lb (t ! i) (X ! 0 ! i)) (X ! 0 ! i)) = Inr Ff"
    by blast
  then show ?thesis by (simp add: sim_body_def Let_def)
qed

lemma sim_loop_ok:
  "\<not> friction \<or> d_case c \<noteq> 0 \<Longrightarrow> \<exists>X'. sim_loop c friction lb t is X = Inr X'"
proof (induction "is" arbitrary: X)
  case Nil
  then show ?case by simp
next
  case (Cons i "is")
  from sim_body_ok[OF Cons.prems] obtain X1 where "sim_body c friction lb t i X = Inr X1"
    by blast
  with Cons.IH[OF Cons.prems, of X1] show ?case by simp
qed

lemma sim_ok:
  "\<not> friction \<or> d_case c \<noteq> 0 \<Longrightarrow> \<exists>t X. sim c friction l_barrel = Inr (t, X)"
  using sim_loop_ok[of friction c "barrel l_barrel" t_vec "[0..<N - 1]" "replicate 4 (replicate N 0)"]
  by (auto simp: sim_def Let_def)

lemma sim_raises:
  "friction \<Longrightarrow> d_case c = 0 \<Longrightarrow> sim c friction l_barrel = Inl ZeroDivisionError"
proof -
  assume fr: "friction" and d: "d_case c = 0"
  have "[0..<N - 1] = 0 # [Suc 0..<N - 1]" by (rule upt_conv_Cons) (simp add: N_eq)
  moreover have "sim_body c friction lb t i X = Inl ZeroDivisionError" for lb t i X
    using fr d by (simp add: sim_body_def Let_def F_friction_def p_yield_def)
  ultimately show ?thesis by (simp add: sim_def Let_def)
qed

text \<open>An index of the trajectory is 0 or the successor of a step of the loop.\<close>

lemma run_index_cases:
  assumes "j < N"
  obtains "j = 0" | i where "j = i + 1" and "i < N - 1"
  using assms by (cases j) auto

subsection \<open>The sigmoid curve\<close>

lemma sigmoid_pos: "0 < sigmoid x s m"
  by (simp add: sigmoid_def add_pos_pos)

lemma sigmoid_less_1: "sigmoid x s m < 1"
  by (simp add: sigmoid_def add_pos_pos)

lemma sigmoid_strict_mono: "0 < s \<Longrightarrow> x < y \<Longrightarrow> sigmoid x s m < sigmoid y s m"
proof -
  assume s: "0 < s" and xy: "x < y"
  have "- s * (y - m) < - s * (x - m)" using s xy by simp
  then have "exp (- s * (y - m)) < exp (- s * (x - m))" by simp
  then have "1 + exp (- s * (y - m)) < 1 + exp (- s * (x - m))" by simp
  moreover have "0 < 1 + exp (- s * (y - m))" by (simp add: add_pos_pos)
  ultimately show ?thesis
    unfolding sigmoid_def by (simp add: frac_less2)
qed

text \<open>
  C7. The sigmoid is \<open>1 / (1 + exp (- steepness * (x - midpoint)))\<close> at every real input;
  at \<open>x = midpoint\<close> it is exactly one half, for any steepness (zero or not); for a
  positive steepness it is strictly increasing in \<open>x\<close>; and its value lies strictly
  between 0 and 1. (Over the reals: in double precision the value saturates to 0.0 or
  1.0 when \<open>steepness * (x - midpoint)\<close> is large.)
\<close>
theorem sigmoid_contract:
  "sigmoid x s m = 1 / (1 + exp (- s * (x - m))) \<and>
   sigmoid m s m = 1 / 2 \<and>
   (0 < s \<longrightarrow> x < y \<longrightarrow> sigmoid x s m < sigmoid y s m) \<and>
   0 < sigmoid x s m \<and> sigmoid x s m < 1"
proof -
  have "sigmoid m s m = 1 / 2" by (simp add: sigmoid_def)
  then show ?thesis
    using sigmoid_pos[of x s m] sigmoid_less_1[of x s m] sigmoid_strict_mono[of s x y m]
    by (simp add: sigmoid_def)
qed

theorem sigmoid_contract_witness:
  "(0::real) < 2 \<and> (0::real) < 1 \<and> sigmoid 0 2 0 < sigmoid 1 2 0 \<and> sigmoid 0 2 0 = 1 / 2"
  using sigmoid_contract[of 0 2 0 1] by simp

subsection \<open>The barrel length\<close>

text \<open>
  C10. A call with \<open>l_barrel = 0\<close> is the same call as one with \<open>l_barrel = None\<close>, and
  both are the same call as one with the default 18 inch barrel, 0.4572 m: the zero is
  replaced before the loop, so the cutoff of the driving pressure is at 0.4572 m.
\<close>
theorem sim_falsy_barrel:
  "sim c friction (Some 0) = sim c friction None \<and>
   sim c friction None = sim c friction (Some 0.4572) \<and>
   barrel (Some 0) = 0.4572"
  by (simp add: sim_def barrel_def inch_def)

subsection \<open>The shape of the trajectory\<close>

text \<open>
  C2. For every bundle with a case diameter other than zero (every valid bundle has a
  positive one), and for every bundle at all when friction is off, \<open>sim\<close> returns:
  the time vector has 3000 entries, starts at 0 and its entry \<open>k\<close> is \<open>k\<close> times
  \<open>10\<^sup>-\<^sup>6\<close>, so consecutive entries are \<open>10\<^sup>-\<^sup>6\<close> apart; the array has four rows of
  3000 entries; and position, velocity, pressure and force are 0 at index 0.
\<close>
theorem sim_samples:
  assumes "\<not> friction \<or> d_case c \<noteq> 0"
  shows "\<exists>t X. sim c friction l_barrel = Inr (t, X) \<and>
           length t = 3000 \<and> t ! 0 = 0 \<and>
           (\<forall>k<3000. t ! k = real k * (1 / 10 ^ 6)) \<and>
           (\<forall>k<2999. t ! (k + 1) - t ! k = 1 / 10 ^ 6) \<and>
           length X = 4 \<and> (\<forall>r<4. length (X ! r) = 3000) \<and>
           X ! 0 ! 0 = 0 \<and> X ! 1 ! 0 = 0 \<and> X ! 2 ! 0 = 0 \<and> X ! 3 ! 0 = 0"
proof -
  from sim_ok[OF assms] obtain t X where s: "sim c friction l_barrel = Inr (t, X)"
    by blast
  note r = sim_run[OF s]
  have t0: "t ! 0 = 0" using r(1) nth_t_vec[of 0] by (simp add: N_eq)
  have tk: "\<forall>k<3000. t ! k = real k * (1 / 10 ^ 6)"
    using r(1) nth_t_vec by (simp add: N_eq Ts_def)
  have dt: "\<forall>k<2999. t ! (k + 1) - t ! k = 1 / 10 ^ 6"
  proof (intro allI impI)
    fix k :: nat assume "k < 2999"
    then have "t ! (k + 1) = real (k + 1) * (1 / 10 ^ 6)" and "t ! k = real k * (1 / 10 ^ 6)"
      using tk by simp_all
    then show "t ! (k + 1) - t ! k = 1 / 10 ^ 6" by (simp add: algebra_simps)
  qed
  have len: "length t = 3000" using r(1) by (simp add: length_t_vec N_eq)
  have sh: "length X = 4 \<and> (\<forall>r<4. length (X ! r) = 3000)"
    using r(2) by (simp add: shape_def N_eq)
  have z: "X ! 0 ! 0 = 0 \<and> X ! 1 ! 0 = 0 \<and> X ! 2 ! 0 = 0 \<and> X ! 3 ! 0 = 0"
    using r(3) by (simp add: col_def)
  show ?thesis using s len t0 tk dt sh z by blast
qed

lemma C9mm_d_case: "d_case C9mm \<noteq> 0"
  by (simp add: C9mm_def mm_def)

theorem sim_samples_witness:
  "d_case C9mm \<noteq> 0 \<and>
   (\<exists>t X. sim C9mm True None = Inr (t, X) \<and> length t = 3000 \<and> t ! 0 = 0 \<and>
      length X = 4 \<and> X ! 0 ! 0 = 0 \<and> X ! 1 ! 0 = 0 \<and> X ! 2 ! 0 = 0 \<and> X ! 3 ! 0 = 0)"
proof -
  have d: "\<not> True \<or> d_case C9mm \<noteq> 0" by (simp add: C9mm_d_case)
  from sim_samples[OF d, of None] show ?thesis using C9mm_d_case by blast
qed

subsection \<open>The update of one step\<close>

text \<open>
  C3. At every step \<open>i\<close> from 0 to \<open>N - 2\<close> of a run that returns, the position at
  \<open>i + 1\<close> is \<open>x\<^sub>i + v\<^sub>i * Ts\<close> and the velocity at \<open>i + 1\<close> is \<open>v\<^sub>i + a * Ts\<close>,
  where the acceleration \<open>a\<close> is \<open>p\<^sub>i * a_case / m_bullet * 0.9\<close>, from the pressure
  sample at index \<open>i\<close>.
\<close>
theorem sim_euler:
  assumes "sim c friction l_barrel = Inr (t, X)" and "i \<le> N - 2"
  shows "X ! 0 ! (i + 1) = X ! 0 ! i + X ! 1 ! i * Ts \<and>
         X ! 1 ! (i + 1) = X ! 1 ! i + (X ! 2 ! i * a_case c / m_bullet c * 0.9) * Ts"
proof -
  have "i < N - 1" using assms(2) by (simp add: N_eq)
  from sim_run(4)[OF assms(1) this] show ?thesis
    by (simp add: stepped_def x_dd_def)
qed

theorem sim_euler_witness:
  "\<exists>t X. sim C9mm True None = Inr (t, X) \<and> (5::nat) \<le> N - 2 \<and>
     X ! 0 ! (5 + 1) = X ! 0 ! 5 + X ! 1 ! 5 * Ts \<and>
     X ! 1 ! (5 + 1) = X ! 1 ! 5 + (X ! 2 ! 5 * a_case C9mm / m_bullet C9mm * 0.9) * Ts"
proof -
  from sim_ok[of True C9mm None] C9mm_d_case
  obtain t X where s: "sim C9mm True None = Inr (t, X)" by blast
  have i: "(5::nat) \<le> N - 2" by (simp add: N_eq)
  from sim_euler[OF s i] s i show ?thesis by blast
qed

text \<open>
  C1. At every step \<open>i\<close> from 0 to \<open>N - 2\<close> of a run that returns, the pressure at
  \<open>i + 1\<close> is \<open>p_peak * sigmoid t\<^sub>i alpha_s t_peak\<close> times
  \<open>(v_case / (v_case + x\<^sub>i * a_case))\<close> to the power \<open>gama\<close>, with \<open>t\<^sub>i = i * Ts\<close> and
  \<open>x\<^sub>i\<close> the position at index \<open>i\<close>; except that it is 0 when \<open>x\<^sub>i\<close> exceeds the
  barrel length of the run (the caller's, or 0.4572 when the caller gave none or zero).
\<close>
theorem sim_pressure:
  assumes "sim c friction l_barrel = Inr (t, X)" and "i \<le> N - 2"
  shows "t ! i = real i * Ts \<and>
         X ! 2 ! (i + 1) =
           (if X ! 0 ! i > barrel l_barrel then 0
            else p_peak c * sigmoid (t ! i) (alpha_s c) (t_peak c) *
                 (v_case c / (v_case c + X ! 0 ! i * a_case c)) powr gama c)"
proof -
  have i: "i < N - 1" and i': "i < N" using assms(2) by (simp_all add: N_eq)
  have "t = t_vec" using assms(1) by (rule sim_run(1))
  then have ti: "t ! i = real i * Ts" using nth_t_vec[OF i'] by simp
  from sim_run(4)[OF assms(1) i] \<open>t = t_vec\<close> ti show ?thesis
    by (simp add: stepped_def p_k_def p_combust_def Let_def)
qed

theorem sim_pressure_witness:
  "\<exists>t X. sim C9mm True None = Inr (t, X) \<and> (5::nat) \<le> N - 2 \<and> t ! 5 = 5 * Ts \<and>
     X ! 2 ! (5 + 1) =
           (if X ! 0 ! 5 > barrel None then 0
            else p_peak C9mm * sigmoid (t ! 5) (alpha_s C9mm) (t_peak C9mm) *
                 (v_case C9mm / (v_case C9mm + X ! 0 ! 5 * a_case C9mm)) powr gama C9mm)"
proof -
  from sim_ok[of True C9mm None] C9mm_d_case
  obtain t X where s: "sim C9mm True None = Inr (t, X)" by blast
  have i: "(5::nat) \<le> N - 2" by (simp add: N_eq)
  from sim_pressure[OF s i] s i show ?thesis by auto
qed

subsection \<open>The case force\<close>

lemma F_case_nonneg: "0 \<le> F_case c pk Ff"
  by (simp add: F_case_def Let_def)

text \<open>
  C4. For every bundle, every barrel length and both values of the friction flag, the
  force sample of a returned trajectory is not negative at any index.
\<close>
theorem sim_force_nonneg:
  assumes "sim c friction l_barrel = Inr (t, X)" and "j < N"
  shows "0 \<le> X ! 3 ! j"
  using assms(2)
proof (cases rule: run_index_cases)
  case 1
  then show ?thesis using sim_run(3)[OF assms(1)] by (simp add: col_def)
next
  case (2 i)
  from sim_run(4)[OF assms(1) 2(2)] show ?thesis
    using F_case_nonneg by (auto simp: stepped_def 2(1) split: sum.splits)
qed

theorem sim_force_nonneg_witness:
  "\<exists>t X. sim C9mm True None = Inr (t, X) \<and> (7::nat) < N \<and> 0 \<le> X ! 3 ! 7"
proof -
  from sim_ok[of True C9mm None] C9mm_d_case
  obtain t X where s: "sim C9mm True None = Inr (t, X)" by blast
  have j: "(7::nat) < N" by (simp add: N_eq)
  from sim_force_nonneg[OF s j] s j show ?thesis by blast
qed

subsection \<open>Signs and bounds along a run\<close>

lemma p_combust_nonneg: "0 \<le> p_peak c \<Longrightarrow> 0 \<le> p_combust c lb ti x"
  using sigmoid_pos[of ti "alpha_s c" "t_peak c"]
  by (simp add: p_combust_def Let_def)

lemma p_combust_le: "0 \<le> p_peak c \<Longrightarrow> p_combust c lb ti x \<le> p_peak c"
proof -
  assume p: "0 \<le> p_peak c"
  have "p_peak c * sigmoid ti (alpha_s c) (t_peak c) \<le> p_peak c * 1"
    using p sigmoid_less_1[of ti "alpha_s c" "t_peak c"]
    by (intro mult_left_mono) simp_all
  then show ?thesis using p by (simp add: p_combust_def Let_def)
qed

lemma p_k_nonneg: "0 \<le> pc \<Longrightarrow> 0 \<le> p_k c pc x"
  by (simp add: p_k_def)

lemma p_k_le:
  assumes "0 \<le> pc" and "0 < v_case c" and "0 \<le> gama c" and "0 \<le> x"
  shows "p_k c pc x \<le> pc"
proof -
  have a: "0 \<le> a_case c" by (simp add: a_case_def)
  then have "0 \<le> x * a_case c" using assms(4) by simp
  then have "v_case c / (v_case c + x * a_case c) \<le> 1"
    and "0 \<le> v_case c / (v_case c + x * a_case c)"
    using assms(2) by simp_all
  then have "\<bar>v_case c / (v_case c + x * a_case c)\<bar> \<le> 1"
    by (simp only: abs_of_nonneg)
  with assms(3) have "(v_case c / (v_case c + x * a_case c)) powr gama c \<le> 1"
    by (rule powr_le1)
  then have "pc * (v_case c / (v_case c + x * a_case c)) powr gama c \<le> pc * 1"
    using assms(1) by (intro mult_left_mono) simp_all
  then show ?thesis by (simp add: p_k_def)
qed

lemma x_dd_nonneg: "0 \<le> p \<Longrightarrow> 0 < m_bullet c \<Longrightarrow> 0 \<le> x_dd c p"
  by (simp add: x_dd_def a_case_def)

lemma run_pressure_nonneg:
  assumes "sim c friction l_barrel = Inr (t, X)" and "0 \<le> p_peak c" and "j < N"
  shows "0 \<le> X ! 2 ! j"
  using assms(3)
proof (cases rule: run_index_cases)
  case 1
  then show ?thesis using sim_run(3)[OF assms(1)] by (simp add: col_def)
next
  case (2 i)
  from sim_run(4)[OF assms(1) 2(2)] show ?thesis
    using p_k_nonneg[OF p_combust_nonneg[OF assms(2)]] by (simp add: stepped_def 2(1))
qed

lemma run_velocity_nonneg:
  assumes "sim c friction l_barrel = Inr (t, X)" and "0 \<le> p_peak c" and "0 < m_bullet c"
  shows "j < N \<Longrightarrow> 0 \<le> X ! 1 ! j"
proof (induction j)
  case 0
  then show ?case using sim_run(3)[OF assms(1)] by (simp add: col_def)
next
  case (Suc j)
  then have j: "j < N - 1" and j': "j < N" by simp_all
  have "0 \<le> x_dd c (X ! 2 ! j)"
    using run_pressure_nonneg[OF assms(1,2) j'] assms(3) by (rule x_dd_nonneg)
  then have "0 \<le> x_dd c (X ! 2 ! j) * Ts" by (simp add: Ts_def)
  then show ?case
    using sim_run(4)[OF assms(1) j] Suc.IH[OF j'] by (simp add: stepped_def)
qed

lemma run_position_nonneg:
  assumes "sim c friction l_barrel = Inr (t, X)" and "0 \<le> p_peak c" and "0 < m_bullet c"
  shows "j < N \<Longrightarrow> 0 \<le> X ! 0 ! j"
proof (induction j)
  case 0
  then show ?case using sim_run(3)[OF assms(1)] by (simp add: col_def)
next
  case (Suc j)
  then have j: "j < N - 1" and j': "j < N" by simp_all
  have "0 \<le> X ! 1 ! j * Ts"
    using run_velocity_nonneg[OF assms j'] by (simp add: Ts_def)
  then show ?case
    using sim_run(4)[OF assms(1) j] Suc.IH[OF j'] by (simp add: stepped_def)
qed

lemma run_pressure_le_peak:
  assumes "sim c friction l_barrel = Inr (t, X)" and "0 \<le> p_peak c" and "0 < m_bullet c"
    and "0 < v_case c" and "0 \<le> gama c" and "j < N"
  shows "X ! 2 ! j \<le> p_peak c"
  using assms(6)
proof (cases rule: run_index_cases)
  case 1
  then show ?thesis using sim_run(3)[OF assms(1)] assms(2) by (simp add: col_def)
next
  case (2 i)
  then have i: "i < N" by simp
  let ?pc = "p_combust c (barrel l_barrel) (t_vec ! i) (X ! 0 ! i)"
  have "p_k c ?pc (X ! 0 ! i) \<le> ?pc"
    using p_combust_nonneg[OF assms(2)] assms(4,5) run_position_nonneg[OF assms(1,2,3) i]
    by (rule p_k_le)
  also have "?pc \<le> p_peak c" using assms(2) by (rule p_combust_le)
  finally show ?thesis
    using sim_run(4)[OF assms(1) 2(2)] by (simp add: stepped_def 2(1))
qed

text \<open>The bullet starts to move: pressure at index 1, velocity from 2, position from 3.\<close>

lemma run_pressure_1:
  assumes "sim c friction l_barrel = Inr (t, X)" and "0 < p_peak c" and "0 < v_case c"
    and "0 \<le> barrel l_barrel"
  shows "0 < X ! 2 ! 1"
proof -
  have zero: "(0::nat) < N - 1" by (simp add: N_eq)
  have x0: "X ! 0 ! 0 = 0" using sim_run(3)[OF assms(1)] by (simp add: col_def)
  have "0 < p_peak c * sigmoid (t_vec ! 0) (alpha_s c) (t_peak c)"
    using assms(2) sigmoid_pos by simp
  then show ?thesis
    using sim_run(4)[OF assms(1) zero] x0 assms(3,4)
    by (simp add: stepped_def p_k_def p_combust_def Let_def)
qed

lemma run_velocity_pos:
  assumes "sim c friction l_barrel = Inr (t, X)" and "0 < p_peak c" and "0 < m_bullet c"
    and "0 < v_case c" and "0 \<le> barrel l_barrel"
  shows "2 \<le> j \<Longrightarrow> j < N \<Longrightarrow> 0 < X ! 1 ! j"
proof (induction j rule: dec_induct)
  case base
  have p: "0 \<le> p_peak c" using assms(2) by simp
  have one: "(1::nat) < N - 1" and one': "(1::nat) < N" by (simp_all add: N_eq)
  have a: "0 < a_case c" using assms(4) by (auto simp: v_case_def a_case_def zero_less_mult_iff)
  have "0 < x_dd c (X ! 2 ! 1) * Ts"
    using run_pressure_1[OF assms(1,2,4,5)] a assms(3) by (simp add: x_dd_def Ts_def)
  moreover have "0 \<le> X ! 1 ! 1" using run_velocity_nonneg[OF assms(1) p assms(3) one'] .
  ultimately show ?case
    using sim_run(4)[OF assms(1) one] by (simp add: stepped_def numeral_2_eq_2)
next
  case (step j)
  have p: "0 \<le> p_peak c" using assms(2) by simp
  from step have j: "j < N - 1" and j': "j < N" by simp_all
  have "0 \<le> x_dd c (X ! 2 ! j) * Ts"
    using x_dd_nonneg[OF run_pressure_nonneg[OF assms(1) p j'] assms(3)] by (simp add: Ts_def)
  then show ?case
    using sim_run(4)[OF assms(1) j] step.IH[OF j'] by (simp add: stepped_def)
qed

lemma run_position_pos:
  assumes "sim c friction l_barrel = Inr (t, X)" and "0 < p_peak c" and "0 < m_bullet c"
    and "0 < v_case c" and "0 \<le> barrel l_barrel" and "3 \<le> j" and "j < N"
  shows "0 < X ! 0 ! j"
proof -
  from assms(6) obtain i where ji: "j = i + 1" and i2: "2 \<le> i" by (cases j) auto
  have i: "i < N - 1" and i': "i < N" using assms(7) ji by simp_all
  have p: "0 \<le> p_peak c" using assms(2) by simp
  have "0 < X ! 1 ! i * Ts"
    using run_velocity_pos[OF assms(1-5) i2 i'] by (simp add: Ts_def)
  moreover have "0 \<le> X ! 0 ! i" using run_position_nonneg[OF assms(1) p assms(3) i'] .
  ultimately show ?thesis
    using sim_run(4)[OF assms(1) i] by (simp add: stepped_def ji)
qed

subsection \<open>Facts about the presets\<close>

lemma C9mm_facts:
  "0 < p_peak C9mm" "0 < m_bullet C9mm" "0 < v_case C9mm" "0 \<le> gama C9mm"
  by (simp_all add: C9mm_def Cartridge_def ksi_def grains_def mm_def v_case_def a_case_def)

lemma Cartridge_facts:
  "m_bullet Cartridge = - 1" "d_case Cartridge \<noteq> 0" "0 < p_peak Cartridge"
  "v_case Cartridge \<noteq> 0"
  by (simp_all add: Cartridge_def ksi_def v_case_def a_case_def)

subsection \<open>Friction\<close>

text \<open>
  C5. With \<open>friction = False\<close> the friction force is 0 whatever the pressure, and at
  every index \<open>j\<close> of a returned trajectory whose pressure sample is not negative the
  force sample is exactly the pressure sample times \<open>a_chamber\<close>; that product is not
  negative, so the clamp does not act.
\<close>
theorem sim_no_friction:
  assumes "sim c False l_barrel = Inr (t, X)" and "j < N" and "0 \<le> X ! 2 ! j"
  shows "F_friction c False pk = Inr 0 \<and>
         X ! 3 ! j = X ! 2 ! j * a_chamber c \<and>
         \<not> X ! 2 ! j * a_chamber c - 0 < 0"
proof -
  have a: "0 \<le> X ! 2 ! j * a_chamber c" using assms(3) by (simp add: a_chamber_def)
  have f: "F_friction c False pk = Inr 0" by (simp add: F_friction_def)
  have "X ! 3 ! j = X ! 2 ! j * a_chamber c"
    using assms(2)
  proof (cases rule: run_index_cases)
    case 1
    then show ?thesis using sim_run(3)[OF assms(1)] by (simp add: col_def)
  next
    case (2 i)
    from sim_run(4)[OF assms(1) 2(2)] show ?thesis
      using a by (simp add: stepped_def 2(1) F_friction_def F_case_def Let_def)
  qed
  with a f show ?thesis by simp
qed

theorem sim_no_friction_witness:
  "\<exists>t X. sim C9mm False None = Inr (t, X) \<and> (1::nat) < N \<and> 0 < X ! 2 ! 1 \<and>
     F_friction C9mm False (X ! 2 ! 1) = Inr 0 \<and> X ! 3 ! 1 = X ! 2 ! 1 * a_chamber C9mm"
proof -
  from sim_ok[of False C9mm None]
  obtain t X where s: "sim C9mm False None = Inr (t, X)" by blast
  have j: "(1::nat) < N" by (simp add: N_eq)
  have b: "0 \<le> barrel None" by (simp add: barrel_default)
  have p: "0 < X ! 2 ! 1" using s C9mm_facts(1,3) b by (rule run_pressure_1)
  then have p': "0 \<le> X ! 2 ! 1" by simp
  from sim_no_friction[OF s j p', of "X ! 2 ! 1"] s j p show ?thesis by blast
qed

text \<open>
  C6. At every step \<open>i\<close> from 0 to \<open>N - 2\<close> of a run that returns, with \<open>p\<close> the
  pressure written at \<open>i + 1\<close> and the yield pressure
  \<open>2 * yield_case * ((d_chamber - d_case) / 2) / d_case\<close>: the friction force is 0 when
  \<open>friction\<close> is false or \<open>p\<close> is below the yield pressure, and otherwise it is
  \<open>(p - yield pressure) * a_cw * u_cw\<close>; the force written at \<open>i + 1\<close> is
  \<open>p * a_chamber\<close> minus that friction force, replaced by 0 when negative.
\<close>
theorem sim_friction:
  assumes "sim c friction l_barrel = Inr (t, X)" and "i \<le> N - 2"
  shows "F_friction c friction (X ! 2 ! (i + 1)) =
           Inr (if \<not> friction \<or>
                   X ! 2 ! (i + 1) < 2 * yield_case c * ((d_chamber c - d_case c) / 2) / d_case c
                then 0
                else (X ! 2 ! (i + 1) -
                      2 * yield_case c * ((d_chamber c - d_case c) / 2) / d_case c) *
                     a_cw c * u_cw c) \<and>
         X ! 3 ! (i + 1) =
           (let Ff = (if \<not> friction \<or>
                   X ! 2 ! (i + 1) < 2 * yield_case c * ((d_chamber c - d_case c) / 2) / d_case c
                then 0
                else (X ! 2 ! (i + 1) -
                      2 * yield_case c * ((d_chamber c - d_case c) / 2) / d_case c) *
                     a_cw c * u_cw c);
                F = X ! 2 ! (i + 1) * a_chamber c - Ff
            in if F < 0 then 0 else F)"
proof -
  have i: "i < N - 1" using assms(2) by (simp add: N_eq)
  from sim_run(4)[OF assms(1) i] obtain Ff where
    Ff: "F_friction c friction (X ! 2 ! (i + 1)) = Inr Ff"
    and F: "X ! 3 ! (i + 1) = F_case c (X ! 2 ! (i + 1)) Ff"
    by (auto simp: stepped_def split: sum.splits)
  have "Ff = (if \<not> friction \<or>
                   X ! 2 ! (i + 1) < 2 * yield_case c * ((d_chamber c - d_case c) / 2) / d_case c
                then 0
                else (X ! 2 ! (i + 1) -
                      2 * yield_case c * ((d_chamber c - d_case c) / 2) / d_case c) *
                     a_cw c * u_cw c)"
    using Ff by (auto simp: F_friction_def p_yield_def t_case_def split: if_splits)
  then show ?thesis using Ff F by (simp add: F_case_def Let_def)
qed

theorem sim_friction_witness:
  "\<exists>t X. sim C9mm True None = Inr (t, X) \<and> (5::nat) \<le> N - 2 \<and>
     X ! 3 ! (5 + 1) =
           (let Ff = (if \<not> True \<or>
                   X ! 2 ! (5 + 1) < 2 * yield_case C9mm * ((d_chamber C9mm - d_case C9mm) / 2) / d_case C9mm
                then 0
                else (X ! 2 ! (5 + 1) -
                      2 * yield_case C9mm * ((d_chamber C9mm - d_case C9mm) / 2) / d_case C9mm) *
                     a_cw C9mm * u_cw C9mm);
                F = X ! 2 ! (5 + 1) * a_chamber C9mm - Ff
            in if F < 0 then 0 else F)"
proof -
  from sim_ok[of True C9mm None] C9mm_d_case
  obtain t X where s: "sim C9mm True None = Inr (t, X)" by blast
  have i: "(5::nat) \<le> N - 2" by (simp add: N_eq)
  from sim_friction[OF s i] s i show ?thesis by blast
qed

subsection \<open>The unset bullet mass\<close>

text \<open>
  The base bundle of \<open>Cartridge\<close> keeps the sentinel mass \<open>-1\<close>. With friction on and
  the default barrel, \<open>sim\<close> raises nothing, returns 3000 time values, and the pressure
  at index 1 is positive: the first pass of the loop has run.
\<close>
theorem sim_unset_mass_counterexample:
  "m_bullet Cartridge = - 1 \<and> \<not> isl (sim Cartridge True None) \<and>
   length (fst (projr (sim Cartridge True None))) = 3000 \<and>
   0 < snd (projr (sim Cartridge True None)) ! 2 ! 1"
proof -
  from sim_ok[of True Cartridge None] Cartridge_facts(2)
  obtain t X where s: "sim Cartridge True None = Inr (t, X)" by blast
  have len: "length t = 3000" using sim_run(1)[OF s] by (simp add: length_t_vec N_eq)
  have zero: "(0::nat) < N - 1" by (simp add: N_eq)
  have x0: "X ! 0 ! 0 = 0" using sim_run(3)[OF s] by (simp add: col_def)
  have "0 < p_peak Cartridge * sigmoid (t_vec ! 0) (alpha_s Cartridge) (t_peak Cartridge)"
    using Cartridge_facts(3) sigmoid_pos by simp
  then have "0 < X ! 2 ! 1"
    using sim_run(4)[OF s zero] x0 Cartridge_facts(4)
    by (simp add: stepped_def p_k_def p_combust_def Let_def barrel_default)
  then show ?thesis using s len Cartridge_facts(1) by simp
qed

lemma Cartridge_a_case: "0 < a_case Cartridge"
  by (simp add: a_case_def Cartridge_def)

lemma Cartridge_pressure_1:
  assumes "sim Cartridge friction None = Inr (t, X)"
  shows "0 < X ! 2 ! 1"
proof -
  have zero: "(0::nat) < N - 1" by (simp add: N_eq)
  have x0: "X ! 0 ! 0 = 0" using sim_run(3)[OF assms] by (simp add: col_def)
  have "0 < p_peak Cartridge * sigmoid (t_vec ! 0) (alpha_s Cartridge) (t_peak Cartridge)"
    using Cartridge_facts(3) sigmoid_pos by simp
  then show ?thesis
    using sim_run(4)[OF assms zero] x0 Cartridge_facts(4)
    by (simp add: stepped_def p_k_def p_combust_def Let_def barrel_default)
qed

lemma Cartridge_velocity_step:
  assumes "sim Cartridge friction None = Inr (t, X)" and "i < N - 1"
  shows "X ! 1 ! (i + 1) = X ! 1 ! i - X ! 2 ! i * a_case Cartridge * 0.9 * Ts"
  using sim_run(4)[OF assms] Cartridge_facts(1) by (simp add: stepped_def x_dd_def)

lemma Cartridge_velocity_neg:
  assumes "sim Cartridge friction None = Inr (t, X)"
  shows "2 \<le> j \<Longrightarrow> j < N \<Longrightarrow> X ! 1 ! j < 0"
proof (induction j rule: dec_induct)
  case base
  have zero: "(0::nat) < N - 1" and one: "(1::nat) < N - 1" by (simp_all add: N_eq)
  have c0: "X ! 1 ! 0 = 0" "X ! 2 ! 0 = 0" using sim_run(3)[OF assms] by (simp_all add: col_def)
  have v1: "X ! 1 ! 1 = 0" using Cartridge_velocity_step[OF assms zero] c0 by simp
  have "0 < X ! 2 ! 1 * a_case Cartridge * 0.9 * Ts"
    using Cartridge_pressure_1[OF assms] Cartridge_a_case by (simp add: Ts_def)
  then show ?case
    using Cartridge_velocity_step[OF assms one] v1 by (simp add: numeral_2_eq_2)
next
  case (step j)
  then have j: "j < N - 1" and j': "j < N" by simp_all
  have p: "0 \<le> p_peak Cartridge" using Cartridge_facts(3) by simp
  define d where "d = X ! 2 ! j * a_case Cartridge * 0.9 * Ts"
  have "0 \<le> X ! 2 ! j" using assms p j' by (rule run_pressure_nonneg)
  then have d: "0 \<le> d"
    using Cartridge_a_case by (simp add: d_def Ts_def)
  have "X ! 1 ! (j + 1) = X ! 1 ! j - d"
    unfolding d_def using assms j by (rule Cartridge_velocity_step)
  with d step.IH[OF j'] have "X ! 1 ! (j + 1) < 0" by linarith
  then show ?case by simp
qed

text \<open>
  C8, as the code has it. The base bundle of \<open>Cartridge\<close> has the bullet mass \<open>-1\<close>,
  and \<open>sim\<close> on it, with the default barrel and either value of the friction flag,
  raises nothing: the loop runs to its end and the trajectory of 3000 samples is
  returned. Every velocity update divides by the mass \<open>-1\<close>, so it subtracts
  \<open>p\<^sub>i * a_case * 0.9 * Ts\<close>; the pressure at index 1 is positive and the velocity is
  negative from index 2 on.
\<close>
theorem sim_unset_mass:
  "m_bullet Cartridge = - 1 \<and>
   (\<exists>t X. sim Cartridge friction None = Inr (t, X) \<and> length t = 3000 \<and>
      length X = 4 \<and> (\<forall>r<4. length (X ! r) = 3000) \<and>
      (\<forall>i\<le>N - 2. X ! 1 ! (i + 1) = X ! 1 ! i - X ! 2 ! i * a_case Cartridge * 0.9 * Ts) \<and>
      0 < X ! 2 ! 1 \<and>
      (\<forall>j. 2 \<le> j \<and> j < N \<longrightarrow> X ! 1 ! j < 0))"
proof -
  have "\<not> friction \<or> d_case Cartridge \<noteq> 0" using Cartridge_facts(2) by simp
  from sim_ok[OF this] obtain t X where s: "sim Cartridge friction None = Inr (t, X)"
    by blast
  have len: "length t = 3000" using sim_run(1)[OF s] by (simp add: length_t_vec N_eq)
  have sh: "length X = 4 \<and> (\<forall>r<4. length (X ! r) = 3000)"
    using sim_run(2)[OF s] by (simp add: shape_def N_eq)
  have v: "\<forall>i\<le>N - 2. X ! 1 ! (i + 1) = X ! 1 ! i - X ! 2 ! i * a_case Cartridge * 0.9 * Ts"
  proof (intro allI impI)
    fix i assume "i \<le> N - 2"
    then have "i < N - 1" by (simp add: N_eq)
    with s show "X ! 1 ! (i + 1) = X ! 1 ! i - X ! 2 ! i * a_case Cartridge * 0.9 * Ts"
      by (rule Cartridge_velocity_step)
  qed
  have p1: "0 < X ! 2 ! 1" using s by (rule Cartridge_pressure_1)
  have neg: "\<forall>j. 2 \<le> j \<and> j < N \<longrightarrow> X ! 1 ! j < 0"
    using Cartridge_velocity_neg[OF s] by blast
  show ?thesis using Cartridge_facts(1) s len sh v p1 neg by blast
qed

theorem sim_unset_mass_witness:
  "\<exists>t X. sim Cartridge True None = Inr (t, X) \<and> length t = 3000 \<and> (1::nat) \<le> N - 2 \<and>
     X ! 1 ! (1 + 1) = X ! 1 ! 1 - X ! 2 ! 1 * a_case Cartridge * 0.9 * Ts \<and>
     0 < X ! 2 ! 1 \<and> (2::nat) < N \<and> X ! 1 ! 2 < 0"
proof -
  from sim_unset_mass[of True]
  obtain t X where s: "sim Cartridge True None = Inr (t, X)" and len: "length t = 3000"
    and v: "\<forall>i\<le>N - 2. X ! 1 ! (i + 1) = X ! 1 ! i - X ! 2 ! i * a_case Cartridge * 0.9 * Ts"
    and p1: "0 < X ! 2 ! 1"
    and neg: "\<forall>j. 2 \<le> j \<and> j < N \<longrightarrow> X ! 1 ! j < 0"
    by blast
  have i: "(1::nat) \<le> N - 2" and j: "(2::nat) < N" by (simp_all add: N_eq)
  from v i have e: "X ! 1 ! (1 + 1) = X ! 1 ! 1 - X ! 2 ! 1 * a_case Cartridge * 0.9 * Ts"
    by blast
  from neg j have n: "X ! 1 ! 2 < 0" by blast
  show ?thesis using s len i e p1 j n by blast
qed

subsection \<open>The 9 mm preset\<close>

text \<open>
  C9. For the 9x19 mm preset, \<open>sim\<close> with a barrel of 0.4572 m and friction on
  returns 3000 samples; the last pressure sample is not negative, the last position is
  positive, and no pressure sample (so also their maximum) exceeds \<open>p_peak\<close>.
\<close>
theorem C9mm_scenario:
  "\<exists>t X. sim C9mm True (Some 0.4572) = Inr (t, X) \<and>
     length t = 3000 \<and> length X = 4 \<and> (\<forall>r<4. length (X ! r) = 3000) \<and>
     0 \<le> X ! 2 ! 2999 \<and> 0 < X ! 0 ! 2999 \<and>
     (\<forall>j<3000. X ! 2 ! j \<le> p_peak C9mm) \<and> Max (set (X ! 2)) \<le> p_peak C9mm"
proof -
  from sim_ok[of True C9mm "Some 0.4572"] C9mm_d_case
  obtain t X where s: "sim C9mm True (Some 0.4572) = Inr (t, X)" by blast
  have p: "0 \<le> p_peak C9mm" using C9mm_facts(1) by simp
  have b: "0 \<le> barrel (Some 0.4572)" by (simp add: barrel_def)
  have last: "(2999::nat) < N" and three: "(3::nat) \<le> 2999" by (simp_all add: N_eq)
  have len: "length t = 3000" using sim_run(1)[OF s] by (simp add: length_t_vec N_eq)
  have sh: "length X = 4 \<and> (\<forall>r<4. length (X ! r) = 3000)"
    using sim_run(2)[OF s] by (simp add: shape_def N_eq)
  have pf: "0 \<le> X ! 2 ! 2999" using s p last by (rule run_pressure_nonneg)
  have xf: "0 < X ! 0 ! 2999"
    using s C9mm_facts(1,2,3) b three last by (rule run_position_pos)
  have le: "\<forall>j<3000. X ! 2 ! j \<le> p_peak C9mm"
    using run_pressure_le_peak[OF s p C9mm_facts(2,3,4)] by (simp add: N_eq)
  have l2: "length (X ! 2) = 3000" using sh by simp
  have "\<forall>y\<in>set (X ! 2). y \<le> p_peak C9mm"
    using le l2 by (auto simp: in_set_conv_nth)
  moreover have "set (X ! 2) \<noteq> {}" using l2 by auto
  ultimately have mx: "Max (set (X ! 2)) \<le> p_peak C9mm" by simp
  show ?thesis using s len sh pf xf le mx by blast
qed

theorem C9mm_scenario_witness:
  "\<exists>t X. sim C9mm True (Some 0.4572) = Inr (t, X) \<and> (1::nat) < 3000 \<and>
     X ! 2 ! 1 \<le> p_peak C9mm \<and> 0 < X ! 0 ! 2999"
  using C9mm_scenario by auto

end
